theory Spec2Isabelle
  imports Main "HOL-Library.Monad_Syntax"
begin

section \<open>time_capture: work presence net of breaks, and projected target times\<close>

text \<open>
  A shallow embedding of \<^verbatim>\<open>time_capture.py\<close>. The program keeps a work span
  (first and last time seen today), subtracts the configured breaks from it and
  projects the clock time at which each daily target will be reached.
\<close>

subsection \<open>Instants, durations and times of day\<close>

text \<open>
  Python's \<^verbatim>\<open>datetime\<close> values have microsecond resolution. A naive
  \<^verbatim>\<open>datetime.datetime\<close> is represented by the number of microseconds
  since the midnight that begins proleptic Gregorian ordinal day 0, so that
  \<open>t div DAY\<close> is \<^verbatim>\<open>t.toordinal()\<close> and \<open>t mod DAY\<close> the time of day.
  A \<^verbatim>\<open>datetime.timedelta\<close> is its number of microseconds, a
  \<^verbatim>\<open>datetime.time\<close> the microseconds since midnight and a
  \<^verbatim>\<open>datetime.date\<close> its ordinal. Comparison, \<open>max\<close>, \<open>min\<close> and
  subtraction of instants are then those of the integers.

  The years 1 to 9999 that \<^verbatim>\<open>datetime\<close> can hold are the ordinals 1 to
  \<open>MAXORDINAL\<close>; adding a duration to an instant raises \<^verbatim>\<open>OverflowError\<close>
  when the sum leaves that range. Durations are unbounded integers here (Python
  limits them to fewer than \<open>10^9\<close> days, which no difference of two instants
  reaches).
\<close>

type_synonym datetime = int
type_synonym timedelta = int
type_synonym time = int
type_synonym date = int

abbreviation SECOND :: int where "SECOND \<equiv> 1000000"
abbreviation MINUTE :: int where "MINUTE \<equiv> 60000000"
abbreviation HOUR :: int where "HOUR \<equiv> 3600000000"
abbreviation DAY :: int where "DAY \<equiv> 86400000000"
abbreviation MAXORDINAL :: int where "MAXORDINAL \<equiv> 3652059"

datatype error = IOError | JSONDecodeError | TypeError | AttributeError | OverflowError

definition valid_datetime :: "datetime \<Rightarrow> bool" where
  "valid_datetime t \<longleftrightarrow> DAY \<le> t \<and> t < (MAXORDINAL + 1) * DAY"

definition valid_time :: "time \<Rightarrow> bool" where
  "valid_time t \<longleftrightarrow> 0 \<le> t \<and> t < DAY"

definition date :: "datetime \<Rightarrow> date" where
  \<comment> \<open>\<^verbatim>\<open>t.date()\<close>\<close>
  "date t = t div DAY"

definition combine :: "date \<Rightarrow> time \<Rightarrow> datetime" where
  \<comment> \<open>\<^verbatim>\<open>datetime.datetime.combine(date, time)\<close>\<close>
  "combine d t = d * DAY + t"

definition dt_add :: "datetime \<Rightarrow> timedelta \<Rightarrow> error + datetime" where
  \<comment> \<open>\<^verbatim>\<open>datetime + timedelta\<close>\<close>
  "dt_add t delta =
     (if valid_datetime (t + delta) then Inr (t + delta) else Inl OverflowError)"

definition minutes :: "int \<Rightarrow> timedelta" where
  \<comment> \<open>\<^verbatim>\<open>datetime.timedelta(minutes=n)\<close>\<close>
  "minutes n = n * MINUTE"

text \<open>
  The proleptic Gregorian calendar of the \<^verbatim>\<open>datetime\<close> module
  (\<^verbatim>\<open>_is_leap\<close>, \<^verbatim>\<open>_days_before_year\<close>, \<^verbatim>\<open>_days_in_month\<close>,
  \<^verbatim>\<open>_days_before_month\<close>, \<^verbatim>\<open>_ymd2ord\<close>, \<^verbatim>\<open>_ord2ymd\<close>), and the constructors
  \<^verbatim>\<open>datetime.datetime(year, month, day, hour, minute, second, microsecond)\<close>
  and \<^verbatim>\<open>datetime.time(hour, minute, second, microsecond)\<close> on fields that are in
  range.
\<close>

definition is_leap :: "int \<Rightarrow> bool" where
  "is_leap year \<longleftrightarrow> year mod 4 = 0 \<and> (year mod 100 \<noteq> 0 \<or> year mod 400 = 0)"

definition days_before_year :: "int \<Rightarrow> int" where
  "days_before_year year = (let y = year - 1 in y * 365 + y div 4 - y div 100 + y div 400)"

definition DAYS_IN_MONTH :: "int list" where
  "DAYS_IN_MONTH = [-1, 31, 28, 31, 30, 31, 30, 31, 31, 30, 31, 30, 31]"

definition DAYS_BEFORE_MONTH :: "int list" where
  "DAYS_BEFORE_MONTH = [-1, 0, 31, 59, 90, 120, 151, 181, 212, 243, 273, 304, 334]"

definition days_in_month :: "int \<Rightarrow> int \<Rightarrow> int" where
  "days_in_month year month =
     (if month = 2 \<and> is_leap year then 29 else DAYS_IN_MONTH ! nat month)"

definition days_before_month :: "int \<Rightarrow> int \<Rightarrow> int" where
  "days_before_month year month =
     DAYS_BEFORE_MONTH ! nat month + (if month > 2 \<and> is_leap year then 1 else 0)"

definition ymd2ord :: "int \<Rightarrow> int \<Rightarrow> int \<Rightarrow> int" where
  "ymd2ord year month day =
     days_before_year year + days_before_month year month + day"

text \<open>\<^verbatim>\<open>_ord2ymd\<close>, the inverse of \<^verbatim>\<open>_ymd2ord\<close>.\<close>

definition ord2ymd :: "int \<Rightarrow> int \<times> int \<times> int" where
  "ord2ymd n =
     (let n = n - 1;
          n400 = n div 146097; n = n mod 146097;
          year = n400 * 400 + 1;
          n100 = n div 36524; n = n mod 36524;
          n4 = n div 1461; n = n mod 1461;
          n1 = n div 365; n = n mod 365;
          year = year + n100 * 100 + n4 * 4 + n1
      in if n1 = 4 \<or> n100 = 4 then (year - 1, 12, 31)
         else
           (let leapyear = (n1 = 3 \<and> (n4 \<noteq> 24 \<or> n100 = 3));
                month = (n + 50) div 32;
                preceding = DAYS_BEFORE_MONTH ! nat month
                              + (if month > 2 \<and> leapyear then 1 else 0)
            in if preceding > n then
                 (let month = month - 1;
                      preceding = preceding - (DAYS_IN_MONTH ! nat month
                                    + (if month = 2 \<and> leapyear then 1 else 0))
                  in (year, month, n - preceding + 1))
               else (year, month, n - preceding + 1)))"

definition datetime_of :: "int \<Rightarrow> int \<Rightarrow> int \<Rightarrow> int \<Rightarrow> int \<Rightarrow> int \<Rightarrow> int \<Rightarrow> datetime" where
  "datetime_of year month day hour minute second microsecond =
     ymd2ord year month day * DAY + hour * HOUR + minute * MINUTE + second * SECOND
       + microsecond"

definition time_of :: "int \<Rightarrow> int \<Rightarrow> int \<Rightarrow> int \<Rightarrow> time" where
  "time_of hour minute second microsecond =
     hour * HOUR + minute * MINUTE + second * SECOND + microsecond"

text \<open>
  The dictionaries \<^verbatim>\<open>{'start': ..., 'end': ...}\<close> are records with the two
  fields. A work span holds two instants; the fields of a break are each an
  instant or a time of day.
\<close>

record 'a span =
  start :: 'a
  end' :: 'a

datatype stamp = DT datetime | TM time

subsection \<open>Interval overlap and presence\<close>

definition set_dict_to_date :: "date \<Rightarrow> stamp span \<Rightarrow> datetime span" where
  \<comment> \<open>\<^verbatim>\<open>_set_dict_to_date\<close>: every value that is a time of day is combined with
     the date, every other value is kept.\<close>
  "set_dict_to_date d duration =
     (let conv = (\<lambda>v. case v of TM t \<Rightarrow> combine d t | DT x \<Rightarrow> x)
      in \<lparr>start = conv (start duration), end' = conv (end' duration)\<rparr>)"

definition calc_time_overlap :: "datetime span \<Rightarrow> stamp span \<Rightarrow> timedelta" where
  "calc_time_overlap first second =
     (let second = set_dict_to_date (date (start first)) second;
          overlap_start = max (start first) (start second);
          overlap_end = min (end' first) (end' second)
      in if overlap_end > overlap_start then overlap_end - overlap_start else 0)"

definition get_breaks_duration :: "datetime span \<Rightarrow> stamp span list \<Rightarrow> timedelta" where
  \<comment> \<open>the \<^verbatim>\<open>for\<close> loop adds the overlaps to the accumulator in list order\<close>
  "get_breaks_duration work breaks =
     fold (\<lambda>single_break breaks_duration.
             breaks_duration + calc_time_overlap work single_break) breaks 0"

definition get_presence :: "datetime span \<Rightarrow> stamp span list \<Rightarrow> timedelta" where
  "get_presence work breaks =
     end' work - start work - get_breaks_duration work breaks"

subsection \<open>Projection of a target time\<close>

text \<open>
  The loop of \<^verbatim>\<open>get_target_time\<close> on the local dictionary \<^verbatim>\<open>work\<close>: as
  long as presence is missing, the end of the span is moved on by the missing
  time. \<open>target_time_passes\<close> counts how often the loop body runs (the checks
  made, the last one included).
\<close>

function target_time_loop ::
  "stamp span list \<Rightarrow> timedelta \<Rightarrow> datetime span \<Rightarrow> error + datetime" where
  "target_time_loop breaks target work =
     (let presence = get_presence work breaks;
          missing_time = target - presence
      in if missing_time > 0 then
           (case dt_add (end' work) missing_time of
              Inl err \<Rightarrow> Inl err
            | Inr e \<Rightarrow> target_time_loop breaks target (work\<lparr>end' := e\<rparr>))
         else Inr (end' work))"
  by pat_completeness auto

function target_time_passes ::
  "stamp span list \<Rightarrow> timedelta \<Rightarrow> datetime span \<Rightarrow> nat" where
  "target_time_passes breaks target work =
     (let presence = get_presence work breaks;
          missing_time = target - presence
      in if missing_time > 0 then
           (case dt_add (end' work) missing_time of
              Inl err \<Rightarrow> 1
            | Inr e \<Rightarrow> 1 + target_time_passes breaks target (work\<lparr>end' := e\<rparr>))
         else 1)"
  by pat_completeness auto

record ('w, 'b) stash =
  log :: bool
  work :: "'w span"
  breaks :: "'b span list"
  targets :: "int list"

definition get_target_time :: "(datetime, stamp) stash \<Rightarrow> timedelta \<Rightarrow> error + datetime" where
  "get_target_time stash target =
     (case dt_add (start (work stash)) target of
        Inl err \<Rightarrow> Inl err
      | Inr e \<Rightarrow>
          target_time_loop (breaks stash) target \<lparr>start = start (work stash), end' = e\<rparr>)"

definition get_target_time_passes :: "(datetime, stamp) stash \<Rightarrow> timedelta \<Rightarrow> nat" where
  \<comment> \<open>how often the loop body of \<^verbatim>\<open>get_target_time\<close> runs\<close>
  "get_target_time_passes stash target =
     (case dt_add (start (work stash)) target of
        Inl err \<Rightarrow> 0
      | Inr e \<Rightarrow>
          target_time_passes (breaks stash) target \<lparr>start = start (work stash), end' = e\<rparr>)"

text \<open>
  The stash of \<^verbatim>\<open>test_target_covers_multiple_breaks\<close>. The test gives the
  dictionary only its breaks and the start of work, which is all that
  \<^verbatim>\<open>get_target_time\<close> reads; the other fields are filled in here.
\<close>

definition test_target_covers_multiple_breaks :: "(datetime, stamp) stash" where
  "test_target_covers_multiple_breaks =
     \<lparr>log = True,
      work = \<lparr>start = datetime_of 2000 1 1 7 0 0 0, end' = datetime_of 2000 1 1 7 0 0 0\<rparr>,
      breaks = [\<lparr>start = DT (datetime_of 2000 1 1 9 0 0 0),
                  end' = DT (datetime_of 2000 1 1 9 15 0 0)\<rparr>,
                \<lparr>start = DT (datetime_of 2000 1 1 10 5 0 0),
                  end' = DT (datetime_of 2000 1 1 10 10 0 0)\<rparr>],
      targets = []\<rparr>"

subsection \<open>Timestamps and times of day as text\<close>

text \<open>
  \<^verbatim>\<open>strftime\<close> for the directives the program uses (\<^verbatim>\<open>%Y\<close>, \<^verbatim>\<open>%m\<close>,
  \<^verbatim>\<open>%d\<close>, \<^verbatim>\<open>%H\<close>, \<^verbatim>\<open>%M\<close>), on the calendar fields of an instant
  or of a time of day. The year is written with four digits and the other
  fields with two, zero-padded, as the library documents them. Seconds and
  microseconds have no directive in any format of the program.
\<close>

definition digit_char :: "int \<Rightarrow> char" where
  "digit_char n = ''0123456789'' ! nat n"

definition is_digit :: "char \<Rightarrow> bool" where
  "is_digit c \<longleftrightarrow> c \<in> set ''0123456789''"

definition digit_val :: "char \<Rightarrow> int" where
  "digit_val c = int (of_char c) - 48"

definition number :: "string \<Rightarrow> int" where
  "number s = foldl (\<lambda>acc c. 10 * acc + digit_val c) 0 s"

definition pad2 :: "int \<Rightarrow> string" where
  "pad2 n = [digit_char (n div 10), digit_char (n mod 10)]"

definition pad4 :: "int \<Rightarrow> string" where
  "pad4 n = [digit_char (n div 1000), digit_char (n div 100 mod 10),
             digit_char (n div 10 mod 10), digit_char (n mod 10)]"

record fields =
  f_year :: int
  f_month :: int
  f_day :: int
  f_hour :: int
  f_minute :: int

definition directive :: "char \<Rightarrow> fields \<Rightarrow> string" where
  "directive c f =
     (if c = CHR ''Y'' then pad4 (f_year f)
      else if c = CHR ''m'' then pad2 (f_month f)
      else if c = CHR ''d'' then pad2 (f_day f)
      else if c = CHR ''H'' then pad2 (f_hour f)
      else if c = CHR ''M'' then pad2 (f_minute f)
      else [CHR ''%'', c])"

fun strftime :: "string \<Rightarrow> fields \<Rightarrow> string" where
  "strftime [] f = []"
| "strftime [c] f = [c]"
| "strftime (c # d # cs) f =
     (if c = CHR ''%'' then directive d f @ strftime cs f else c # strftime (d # cs) f)"

definition datetime_fields :: "datetime \<Rightarrow> fields" where
  "datetime_fields t =
     (case ord2ymd (t div DAY) of (y, m, d) \<Rightarrow>
        \<lparr>f_year = y, f_month = m, f_day = d,
         f_hour = t mod DAY div HOUR, f_minute = t mod HOUR div MINUTE\<rparr>)"

definition time_fields :: "time \<Rightarrow> fields" where
  "time_fields t =
     \<lparr>f_year = 1900, f_month = 1, f_day = 1,
      f_hour = t div HOUR, f_minute = t mod HOUR div MINUTE\<rparr>"

text \<open>
  \<^verbatim>\<open>datetime.datetime.strptime(value, '%Y-%m-%dT%H:%M')\<close>. The library turns
  the format into the regular expression
  \<^verbatim>\<open>(\d\d\d\d)-(1[0-2]|0[1-9]|[1-9])-(3[01]|[12]\d|0[1-9]|[1-9]| [1-9])T(2[0-3]|[0-1]\d|\d):([0-5]\d|\d)\<close>,
  matched without regard to case, and wants the whole string matched. No field
  can hold the separator that follows it, so the string is cut at the
  separators and every piece checked: \<open>digit_field lens lo hi\<close> accepts a piece
  of digits whose length is in \<open>lens\<close> and whose value lies between \<open>lo\<close> and
  \<open>hi\<close>. The year 0 and a day beyond the end of the month are rejected when
  the instant is built. \<open>None\<close> stands for \<^verbatim>\<open>ValueError\<close>.
\<close>

fun split_at :: "(char \<Rightarrow> bool) \<Rightarrow> string \<Rightarrow> (string \<times> string) option" where
  "split_at P [] = None"
| "split_at P (c # cs) =
     (if P c then Some ([], cs)
      else (case split_at P cs of None \<Rightarrow> None | Some (a, b) \<Rightarrow> Some (c # a, b)))"

definition digit_field :: "nat list \<Rightarrow> int \<Rightarrow> int \<Rightarrow> string \<Rightarrow> int option" where
  "digit_field lens lo hi f =
     (if length f \<in> set lens \<and> list_all is_digit f \<and> lo \<le> number f \<and> number f \<le> hi
      then Some (number f) else None)"

definition day_field :: "string \<Rightarrow> int option" where
  "day_field f =
     (case f of
        [a, b] \<Rightarrow> if a = CHR '' '' then digit_field [1] 1 9 [b] else digit_field [1, 2] 1 31 f
      | _ \<Rightarrow> digit_field [1, 2] 1 31 f)"

definition strptime :: "string \<Rightarrow> datetime option" where
  "strptime s = do {
     (fY, s) \<leftarrow> split_at (\<lambda>c. c = CHR ''-'') s;
     (fm, s) \<leftarrow> split_at (\<lambda>c. c = CHR ''-'') s;
     (fd, s) \<leftarrow> split_at (\<lambda>c. c = CHR ''T'' \<or> c = CHR ''t'') s;
     (fH, fM) \<leftarrow> split_at (\<lambda>c. c = CHR '':'') s;
     year \<leftarrow> digit_field [4] 0 9999 fY;
     month \<leftarrow> digit_field [1, 2] 1 12 fm;
     day \<leftarrow> day_field fd;
     hour \<leftarrow> digit_field [1, 2] 0 23 fH;
     minute \<leftarrow> digit_field [1, 2] 0 59 fM;
     if 1 \<le> year \<and> day \<le> days_in_month year month
     then Some (datetime_of year month day hour minute 0 0) else None
   }"

text \<open>
  \<^verbatim>\<open>datetime.time.fromisoformat(value)\<close> for the strings
  \<^verbatim>\<open>HH[:MM[:SS[.fff[fff]]]]\<close>. A string with a UTC offset gives a time of day
  with a time zone in Python, which \<open>time\<close> does not represent; such a string
  is not a time of day here.
\<close>

definition fromisoformat :: "string \<Rightarrow> time option" where
  "fromisoformat s =
     (let n = length s in
      if n \<notin> {2, 5, 8, 12, 15} then None
      else if (5 \<le> n \<and> s ! 2 \<noteq> CHR '':'') \<or> (8 \<le> n \<and> s ! 5 \<noteq> CHR '':'')
              \<or> (12 \<le> n \<and> s ! 8 \<noteq> CHR ''.'') then None
      else do {
        hour \<leftarrow> digit_field [2] 0 23 (take 2 s);
        minute \<leftarrow> (if 5 \<le> n then digit_field [2] 0 59 (take 2 (drop 3 s)) else Some 0);
        second \<leftarrow> (if 8 \<le> n then digit_field [2] 0 59 (take 2 (drop 6 s)) else Some 0);
        fraction \<leftarrow> (if 12 \<le> n then digit_field [3, 6] 0 999999 (drop 9 s) else Some 0);
        Some (time_of hour minute second (if n = 12 then fraction * 1000 else fraction))
      })"

subsection \<open>Conversion of the stash to and from JSON values\<close>

text \<open>
  The values that \<^verbatim>\<open>json.load\<close> hands to the hook and that the hook
  returns. A dictionary is a list of pairs in the order of its keys.
\<close>

datatype pyval =
    PStr string
  | PInt int
  | PBool bool
  | PNone
  | PDatetime datetime
  | PTime time
  | PList "pyval list"
  | PDict "(string \<times> pyval) list"

definition datetime_to_string :: "pyval \<Rightarrow> error + string" where
  "datetime_to_string obj =
     (case obj of
        PDatetime t \<Rightarrow> Inr (strftime ''%Y-%m-%dT%H:%M'' (datetime_fields t))
      | PTime t \<Rightarrow> Inr (strftime ''%H:%M'' (time_fields t))
      | _ \<Rightarrow> Inl TypeError)"




subsection \<open>The stash file and the update cycle\<close>

text \<open>
  What an update cycle reads and writes: the stash file, the lines appended to
  the monthly log files (each with the name of its file, in the order of
  writing) and the lines printed. The directory \<^verbatim>\<open>path\<close> is fixed and left
  out. Opening the stash file for reading either raises \<^verbatim>\<open>IOError\<close>
  (\<open>Unreadable\<close>), or gives text that \<^verbatim>\<open>json.load\<close> rejects with
  \<^verbatim>\<open>JSONDecodeError\<close> (\<open>Malformed\<close>), or gives a JSON document. A document
  has the shape of the stash that the program writes, with a JSON value in every
  field of the work span and of the breaks. Writing a file is taken to succeed.
\<close>

type_synonym raw_stash = "(pyval, pyval) stash"

datatype stash_file = Unreadable | Malformed | Document raw_stash

record world =
  stash_file :: stash_file
  log_files :: "(string \<times> string) list"
  stdout :: "string list"




definition json_default :: "pyval \<Rightarrow> pyval" where
  "json_default v = (case datetime_to_string v of Inr s \<Rightarrow> PStr s | Inl err \<Rightarrow> v)"




text \<open>
  \<^verbatim>\<open>str(timedelta)\<close> and \<^verbatim>\<open>get_hour_minute_str\<close>, which cuts the string at
  its last colon; \<^verbatim>\<open>str(timedelta)\<close> always has one.
\<close>

function decimal :: "int \<Rightarrow> string" where
  "decimal n =
     (if n < 0 then CHR ''-'' # decimal (- n)
      else if n < 10 then [digit_char n]
      else decimal (n div 10) @ [digit_char (n mod 10)])"
  by pat_completeness auto
termination
  by (relation "measure (\<lambda>n. if n < 0 then nat (1 - 2 * n) else nat (2 * n))") auto

definition pad6 :: "int \<Rightarrow> string" where
  "pad6 n = pad2 (n div 10000) @ pad2 (n div 100 mod 100) @ pad2 (n mod 100)"

definition str_timedelta :: "timedelta \<Rightarrow> string" where
  "str_timedelta td =
     (let days = td div DAY;
          seconds = td mod DAY div SECOND;
          microseconds = td mod SECOND;
          mm = seconds div 60; ss = seconds mod 60;
          hh = mm div 60; mm = mm mod 60;
          s = decimal hh @ '':'' @ pad2 mm @ '':'' @ pad2 ss;
          s = (if days \<noteq> 0
               then decimal days @ '' day'' @ (if \<bar>days\<bar> \<noteq> 1 then ''s'' else '''') @ '', '' @ s
               else s)
      in if microseconds \<noteq> 0 then s @ ''.'' @ pad6 microseconds else s)"

definition get_hour_minute_str :: "timedelta \<Rightarrow> string" where
  "get_hour_minute_str timedelta =
     (let presence_str = str_timedelta timedelta
      in rev (tl (dropWhile (\<lambda>c. c \<noteq> CHR '':'') (rev presence_str))))"



definition as_stamp :: "pyval \<Rightarrow> stamp option" where
  "as_stamp v = (case v of PDatetime t \<Rightarrow> Some (DT t) | PTime t \<Rightarrow> Some (TM t) | _ \<Rightarrow> None)"

definition as_break :: "pyval span \<Rightarrow> stamp span option" where
  "as_break b =
     (case (as_stamp (start b), as_stamp (end' b)) of
        (Some s, Some e) \<Rightarrow> Some \<lparr>start = s, end' = e\<rparr>
      | _ \<Rightarrow> None)"

definition typed_stash :: "raw_stash \<Rightarrow> error + (datetime, stamp) stash" where
  "typed_stash stash =
     (case (start (work stash), end' (work stash)) of
        (PDatetime s, PDatetime e) \<Rightarrow>
          if list_all (\<lambda>b. as_break b \<noteq> None) (breaks stash)
          then Inr \<lparr>log = log stash, work = \<lparr>start = s, end' = e\<rparr>,
                     breaks = map (\<lambda>b. the (as_break b)) (breaks stash),
                     targets = targets stash\<rparr>
          else Inl TypeError
      | _ \<Rightarrow> Inl TypeError)"

text \<open>\<^verbatim>\<open>_write_log\<close>\<close>

definition write_log :: "world \<Rightarrow> raw_stash \<Rightarrow> error + world" where
  "write_log w stash =
     (case typed_stash stash of
        Inl err \<Rightarrow> Inl err
      | Inr ts \<Rightarrow>
          (let presence = get_presence (work ts) (breaks ts);
               presence_str = get_hour_minute_str presence;
               file_name = strftime ''%Y_%m.csv'' (datetime_fields (start (work ts)));
               line = strftime ''%d.%m.%Y;%H:%M;'' (datetime_fields (start (work ts)))
                      @ strftime ''%H:%M;'' (datetime_fields (end' (work ts)))
                      @ presence_str @ [CHR 0x0A]
           in Inr (w\<lparr>log_files := log_files w @ [(file_name, line)]\<rparr>)))"






text \<open>
  A document whose work and break fields hold JSON scalars; what the hook makes
  of such fields; and the truncation to the whole minute that writing and
  reading back amounts to.
\<close>

definition json_scalar :: "pyval \<Rightarrow> bool" where
  "json_scalar v =
     (case v of PStr s \<Rightarrow> True | PInt i \<Rightarrow> True | PBool b \<Rightarrow> True | PNone \<Rightarrow> True
      | _ \<Rightarrow> False)"



definition loaded_value :: "pyval \<Rightarrow> bool" where
  "loaded_value v =
     (case v of
        PDatetime t \<Rightarrow> valid_datetime t
      | PTime t \<Rightarrow> valid_time t
      | PStr s \<Rightarrow> strptime s = None \<and> fromisoformat s = None
      | PList l \<Rightarrow> False
      | PDict d \<Rightarrow> False
      | _ \<Rightarrow> True)"

definition truncate_value :: "pyval \<Rightarrow> pyval" where
  "truncate_value v =
     (case v of
        PDatetime t \<Rightarrow> PDatetime (t - t mod MINUTE)
      | PTime t \<Rightarrow> PTime (t - t mod MINUTE)
      | _ \<Rightarrow> v)"




subsection \<open>Quantities used in the statements\<close>

text \<open>
  The length of a break once it is put on a date, and of a list of breaks: no
  overlap with a work span that starts on that date can be longer.
\<close>

definition break_length :: "date \<Rightarrow> stamp span \<Rightarrow> timedelta" where
  "break_length d b = (let n = set_dict_to_date d b in max 0 (end' n - start n))"

definition breaks_length :: "date \<Rightarrow> stamp span list \<Rightarrow> timedelta" where
  "breaks_length d bs = sum_list (map (break_length d) bs)"

text \<open>The number of breaks that share time with a work span.\<close>

definition breaks_in_window :: "datetime span \<Rightarrow> stamp span list \<Rightarrow> nat" where
  "breaks_in_window w bs = length (filter (\<lambda>b. 0 < calc_time_overlap w b) bs)"

text \<open>The measure that decreases with every pass of the loop.\<close>

definition loop_measure :: "stamp span list \<times> timedelta \<times> datetime span \<Rightarrow> nat" where
  "loop_measure = (\<lambda>(bs, target, w).
     nat (2 * (breaks_length (date (start w)) bs - get_breaks_duration w bs)
          + (if target - get_presence w bs > 0 then 1 else 0)))"

text \<open>Whether two spans share time, and whether the breaks of a list, put on a
  date, are pairwise apart.\<close>

definition shares_time :: "datetime span \<Rightarrow> datetime span \<Rightarrow> bool" where
  "shares_time a b \<longleftrightarrow> max (start a) (start b) < min (end' a) (end' b)"

fun pairwise_disjoint :: "datetime span list \<Rightarrow> bool" where
  "pairwise_disjoint [] = True"
| "pairwise_disjoint (b # bs) = ((\<forall>c \<in> set bs. \<not> shares_time b c) \<and> pairwise_disjoint bs)"

definition breaks_disjoint :: "date \<Rightarrow> stamp span list \<Rightarrow> bool" where
  "breaks_disjoint d bs = pairwise_disjoint (map (set_dict_to_date d) bs)"

text \<open>The instants (whole microseconds) that a break shares with a work span.\<close>

definition overlap_points :: "datetime span \<Rightarrow> stamp span \<Rightarrow> int set" where
  "overlap_points w b =
     (let n = set_dict_to_date (date (start w)) b
      in {max (start w) (start n) ..< min (end' w) (end' n)})"

subsection \<open>Inputs used in the statements\<close>

text \<open>A day's work that starts one hour before the end of the year 9999.\<close>

definition last_day_stash :: "(datetime, stamp) stash" where
  "last_day_stash =
     \<lparr>log = True,
      work = \<lparr>start = datetime_of 9999 12 31 23 0 0 0, end' = datetime_of 9999 12 31 23 0 0 0\<rparr>,
      breaks = [],
      targets = []\<rparr>"

text \<open>Work from 07:00 with a single break from 07:30 to 09:00.\<close>

definition long_break_stash :: "(datetime, stamp) stash" where
  "long_break_stash =
     \<lparr>log = True,
      work = \<lparr>start = datetime_of 2000 1 1 7 0 0 0, end' = datetime_of 2000 1 1 7 0 0 0\<rparr>,
      breaks = [\<lparr>start = TM (time_of 7 30 0 0), end' = TM (time_of 9 0 0 0)\<rparr>],
      targets = []\<rparr>"

text \<open>A quarter of an hour of work, all of it inside a break that is listed twice.\<close>

definition double_break_work :: "datetime span" where
  "double_break_work = \<lparr>start = datetime_of 2000 1 1 9 0 0 0, end' = datetime_of 2000 1 1 9 15 0 0\<rparr>"

definition double_break :: "stamp span list" where
  "double_break = [\<lparr>start = TM (time_of 9 0 0 0), end' = TM (time_of 9 15 0 0)\<rparr>,
                   \<lparr>start = TM (time_of 9 0 0 0), end' = TM (time_of 9 15 0 0)\<rparr>]"

text \<open>Work across midnight, and a break in the small hours.\<close>

definition overnight_work :: "datetime span" where
  "overnight_work = \<lparr>start = datetime_of 2000 1 1 23 0 0 0, end' = datetime_of 2000 1 2 1 0 0 0\<rparr>"

definition after_midnight_break :: "stamp span" where
  "after_midnight_break = \<lparr>start = TM (time_of 0 30 0 0), end' = TM (time_of 0 45 0 0)\<rparr>"





subsection \<open>Properties of overlap and presence\<close>

lemma fold_add_overlap:
  "fold (\<lambda>b acc. acc + calc_time_overlap w b) bs a =
     a + sum_list (map (calc_time_overlap w) bs)"
  by (induction bs arbitrary: a) simp_all

lemma get_breaks_duration_sum:
  "get_breaks_duration w bs = sum_list (map (calc_time_overlap w) bs)"
  by (simp add: get_breaks_duration_def fold_add_overlap)

lemma calc_time_overlap_nonneg: "0 \<le> calc_time_overlap first second"
  by (simp add: calc_time_overlap_def Let_def)

text \<open>
  C4. The overlap of two spans is
  \<open>max 0 (min first.end second.end - max first.start second.start)\<close>, taken after
  the second span has been put on a date. It is never negative, and it is zero
  when the spans do not intersect or when either of them ends before it starts.
\<close>

theorem calc_time_overlap_formula:
  "calc_time_overlap first \<lparr>start = DT s, end' = DT e\<rparr>
     = max 0 (min (end' first) e - max (start first) s)
   \<and> 0 \<le> calc_time_overlap first second
   \<and> (end' first \<le> s \<or> e \<le> start first \<or> e < s \<or> end' first < start first
        \<longrightarrow> calc_time_overlap first \<lparr>start = DT s, end' = DT e\<rparr> = 0)"
  by (auto simp add: calc_time_overlap_def set_dict_to_date_def Let_def)

theorem calc_time_overlap_formula_witness:
  "end' \<lparr>start = (10::int), end' = 5\<rparr> < start \<lparr>start = (10::int), end' = 5\<rparr>
   \<and> calc_time_overlap \<lparr>start = 10, end' = 5\<rparr> \<lparr>start = DT 0, end' = DT 20\<rparr>
       = max 0 (min 5 20 - max 10 0)
   \<and> calc_time_overlap \<lparr>start = 10, end' = 5\<rparr> \<lparr>start = DT 0, end' = DT 20\<rparr> = 0"
  using calc_time_overlap_formula
    [of "\<lparr>start = 10, end' = 5\<rparr>" 0 20 "\<lparr>start = DT 0, end' = DT 20\<rparr>"]
  by simp

text \<open>
  C6. The break duration is the sum of the overlaps of the work span with every
  break of the list, each taken on its own and in list order. Without breaks it
  is zero, and the presence is the length of the work span.
\<close>

theorem get_breaks_duration_sums_overlaps:
  "get_breaks_duration w bs = (\<Sum>b\<leftarrow>bs. calc_time_overlap w b)
   \<and> get_breaks_duration w [] = 0
   \<and> get_presence w [] = end' w - start w"
  by (simp add: get_breaks_duration_sum get_presence_def)

subsection \<open>The projection loop terminates\<close>

lemma calc_time_overlap_le_length:
  "calc_time_overlap w b \<le> break_length (date (start w)) b"
  by (auto simp add: calc_time_overlap_def break_length_def Let_def)

lemma calc_time_overlap_mono:
  "e \<le> e' \<Longrightarrow> calc_time_overlap (w\<lparr>end' := e\<rparr>) b \<le> calc_time_overlap (w\<lparr>end' := e'\<rparr>) b"
  by (auto simp add: calc_time_overlap_def Let_def)

lemma get_breaks_duration_le_length:
  "get_breaks_duration w bs \<le> breaks_length (date (start w)) bs"
  unfolding get_breaks_duration_sum breaks_length_def
  by (induction bs) (simp_all add: add_mono calc_time_overlap_le_length)

lemma get_breaks_duration_mono:
  "e \<le> e' \<Longrightarrow> get_breaks_duration (w\<lparr>end' := e\<rparr>) bs \<le> get_breaks_duration (w\<lparr>end' := e'\<rparr>) bs"
  unfolding get_breaks_duration_sum
  by (induction bs) (simp_all add: add_mono calc_time_overlap_mono)

lemma loop_measure_decreases:
  assumes "0 < target - get_presence w bs"
    and "dt_add (end' w) (target - get_presence w bs) = Inr e"
  shows "loop_measure (bs, target, w\<lparr>end' := e\<rparr>) < loop_measure (bs, target, w)"
proof -
  let ?m = "target - get_presence w bs"
  have e: "e = end' w + ?m"
    using assms(2) by (simp add: dt_add_def split: if_splits)
  have "end' w \<le> e" using assms(1) e by simp
  from get_breaks_duration_mono[OF this, of w bs]
  have mono: "get_breaks_duration w bs \<le> get_breaks_duration (w\<lparr>end' := e\<rparr>) bs" by simp
  have le: "get_breaks_duration (w\<lparr>end' := e\<rparr>) bs \<le> breaks_length (date (start w)) bs"
    using get_breaks_duration_le_length[of "w\<lparr>end' := e\<rparr>" bs] by simp
  have miss: "target - get_presence (w\<lparr>end' := e\<rparr>) bs
      = get_breaks_duration (w\<lparr>end' := e\<rparr>) bs - get_breaks_duration w bs"
    using e by (simp add: get_presence_def)
  show ?thesis
    using assms(1) mono le miss by (simp add: loop_measure_def)
qed

termination target_time_loop
  by (relation "measure loop_measure") (auto intro: loop_measure_decreases)

termination target_time_passes
  by (relation "measure loop_measure") (auto intro: loop_measure_decreases)

declare target_time_loop.simps [simp del]
declare target_time_passes.simps [simp del]

lemma presence_after_advance:
  "get_presence (w\<lparr>end' := end' w + (target - get_presence w bs)\<rparr>) bs
     = target - (get_breaks_duration (w\<lparr>end' := end' w + (target - get_presence w bs)\<rparr>) bs
                 - get_breaks_duration w bs)"
  by (simp add: get_presence_def)

lemma presence_le_after_advance:
  assumes "0 < target - get_presence w bs"
  shows "get_presence (w\<lparr>end' := end' w + (target - get_presence w bs)\<rparr>) bs \<le> target"
proof -
  have "end' w \<le> end' w + (target - get_presence w bs)" using assms by simp
  from get_breaks_duration_mono[OF this, of w bs] show ?thesis
    by (simp add: presence_after_advance)
qed

lemma loop_step:
  assumes "0 < target - get_presence w bs"
  shows "target_time_loop bs target w =
    (case dt_add (end' w) (target - get_presence w bs) of
       Inl err \<Rightarrow> Inl err
     | Inr e \<Rightarrow> target_time_loop bs target (w\<lparr>end' := e\<rparr>))"
  using assms by (subst target_time_loop.simps) (simp add: Let_def)

lemma loop_stop:
  assumes "\<not> 0 < target - get_presence w bs"
  shows "target_time_loop bs target w = Inr (end' w)"
  using assms by (subst target_time_loop.simps) (simp add: Let_def)

lemma passes_step:
  assumes "0 < target - get_presence w bs"
  shows "target_time_passes bs target w =
    (case dt_add (end' w) (target - get_presence w bs) of
       Inl err \<Rightarrow> 1
     | Inr e \<Rightarrow> 1 + target_time_passes bs target (w\<lparr>end' := e\<rparr>))"
  using assms by (subst target_time_passes.simps) (simp add: Let_def)

lemma passes_stop:
  assumes "\<not> 0 < target - get_presence w bs"
  shows "target_time_passes bs target w = 1"
  using assms by (subst target_time_passes.simps) (simp add: Let_def)

lemma dt_add_Inr: "dt_add t d = Inr e \<Longrightarrow> e = t + d"
  by (simp add: dt_add_def split: if_splits)

lemma dt_add_Inl: "dt_add t d = Inl err \<Longrightarrow> err = OverflowError"
  by (simp add: dt_add_def split: if_splits)

subsection \<open>Results of the projection loop\<close>

lemma target_time_loop_presence:
  "get_presence w bs \<le> target \<Longrightarrow> target_time_loop bs target w = Inr t
     \<Longrightarrow> get_presence (w\<lparr>end' := t\<rparr>) bs = target"
proof (induction bs target w rule: target_time_loop.induct)
  case (1 bs target w)
  show ?case
  proof (cases "0 < target - get_presence w bs")
    case True
    let ?m = "target - get_presence w bs"
    from "1.prems"(2) obtain e where v: "dt_add (end' w) ?m = Inr e"
      and r: "target_time_loop bs target (w\<lparr>end' := e\<rparr>) = Inr t"
      unfolding loop_step[OF True] by (cases "dt_add (end' w) ?m") simp_all
    have e: "e = end' w + ?m" using v by (rule dt_add_Inr)
    have "get_presence (w\<lparr>end' := e\<rparr>) bs \<le> target"
      unfolding e using True by (rule presence_le_after_advance)
    from "1.IH"[OF refl refl True v this r] show ?thesis by simp
  next
    case False
    from "1.prems"(2) have "t = end' w" unfolding loop_stop[OF False] by simp
    moreover have "get_presence w bs = target" using False "1.prems"(1) by simp
    ultimately show ?thesis by simp
  qed
qed

lemma target_time_loop_error:
  "target_time_loop bs target w = Inl err \<Longrightarrow> err = OverflowError"
proof (induction bs target w rule: target_time_loop.induct)
  case (1 bs target w)
  show ?case
  proof (cases "0 < target - get_presence w bs")
    case True
    let ?m = "target - get_presence w bs"
    show ?thesis
    proof (cases "dt_add (end' w) ?m")
      case (Inl x)
      with "1.prems" have "x = err" unfolding loop_step[OF True] by simp
      with Inl show ?thesis by (auto dest: dt_add_Inl)
    next
      case (Inr e)
      with "1.prems" have "target_time_loop bs target (w\<lparr>end' := e\<rparr>) = Inl err"
        unfolding loop_step[OF True] by simp
      from "1.IH"[OF refl refl True Inr this] show ?thesis .
    qed
  next
    case False
    with "1.prems" show ?thesis unfolding loop_stop[OF False] by simp
  qed
qed

lemma target_time_loop_returns:
  assumes "DAY \<le> end' w"
    and "start w + target + breaks_length (date (start w)) bs < (MAXORDINAL + 1) * DAY"
  shows "\<exists>t. target_time_loop bs target w = Inr t"
  using assms
proof (induction bs target w rule: target_time_loop.induct)
  case (1 bs target w)
  show ?case
  proof (cases "0 < target - get_presence w bs")
    case True
    let ?m = "target - get_presence w bs"
    let ?e = "end' w + ?m"
    have "?e = start w + target + get_breaks_duration w bs"
      by (simp add: get_presence_def)
    with get_breaks_duration_le_length[of w bs] "1.prems"(2)
    have up: "?e < (MAXORDINAL + 1) * DAY" by linarith
    have lo: "DAY \<le> ?e" using True "1.prems"(1) by linarith
    have v: "dt_add (end' w) ?m = Inr ?e"
      using up lo by (simp add: dt_add_def valid_datetime_def)
    have lo': "DAY \<le> end' (w\<lparr>end' := ?e\<rparr>)" using lo by simp
    have up': "start (w\<lparr>end' := ?e\<rparr>) + target
        + breaks_length (date (start (w\<lparr>end' := ?e\<rparr>))) bs < (MAXORDINAL + 1) * DAY"
      using "1.prems"(2) by simp
    from "1.IH"[OF refl refl True v lo' up']
    show ?thesis unfolding loop_step[OF True] v by simp
  next
    case False
    then show ?thesis by (simp add: loop_stop)
  qed
qed

lemma target_time_passes_bound:
  assumes "get_presence w bs \<le> target" "target_time_loop bs target w = Inr t"
  shows "int (target_time_passes bs target w)
          \<le> 1 + (get_breaks_duration (w\<lparr>end' := t\<rparr>) bs - get_breaks_duration w bs)
               + (target - get_presence w bs)"
  using assms
proof (induction bs target w rule: target_time_loop.induct)
  case (1 bs target w)
  show ?case
  proof (cases "0 < target - get_presence w bs")
    case True
    let ?m = "target - get_presence w bs"
    from "1.prems"(2) obtain e where v: "dt_add (end' w) ?m = Inr e"
      and r: "target_time_loop bs target (w\<lparr>end' := e\<rparr>) = Inr t"
      unfolding loop_step[OF True] by (cases "dt_add (end' w) ?m") simp_all
    have e: "e = end' w + ?m" using v by (rule dt_add_Inr)
    have le: "get_presence (w\<lparr>end' := e\<rparr>) bs \<le> target"
      unfolding e using True by (rule presence_le_after_advance)
    have p: "target_time_passes bs target w = 1 + target_time_passes bs target (w\<lparr>end' := e\<rparr>)"
      unfolding passes_step[OF True] v by simp
    have m': "target - get_presence (w\<lparr>end' := e\<rparr>) bs
        = get_breaks_duration (w\<lparr>end' := e\<rparr>) bs - get_breaks_duration w bs"
      unfolding e by (simp add: presence_after_advance)
    from "1.IH"[OF refl refl True v le r]
    have "int (target_time_passes bs target (w\<lparr>end' := e\<rparr>))
        \<le> 1 + (get_breaks_duration (w\<lparr>end' := t\<rparr>) bs - get_breaks_duration (w\<lparr>end' := e\<rparr>) bs)
            + (target - get_presence (w\<lparr>end' := e\<rparr>) bs)" by simp
    with m' True show ?thesis unfolding p by linarith
  next
    case False
    from "1.prems"(2) have "t = end' w" unfolding loop_stop[OF False] by simp
    moreover have "get_presence w bs = target" using False "1.prems"(1) by simp
    ultimately show ?thesis unfolding passes_stop[OF False] by simp
  qed
qed

subsection \<open>Evaluation on concrete inputs\<close>

lemmas calendar_defs = datetime_of_def ymd2ord_def days_before_year_def days_before_month_def
  DAYS_BEFORE_MONTH_def is_leap_def time_of_def Let_def

lemmas overlap_defs = dt_add_def valid_datetime_def get_presence_def
  get_breaks_duration_def calc_time_overlap_def set_dict_to_date_def date_def combine_def
  minutes_def

lemma get_target_time_test:
  "get_target_time test_target_covers_multiple_breaks (minutes 180)
     = Inr (datetime_of 2000 1 1 10 20 0 0)"
  unfolding test_target_covers_multiple_breaks_def get_target_time_def
  apply (simp add: calendar_defs overlap_defs)
  apply (subst target_time_loop.simps, simp add: overlap_defs)
  apply (subst target_time_loop.simps, simp add: overlap_defs)
  apply (subst target_time_loop.simps, simp add: overlap_defs)
  done

lemma long_break_result:
  "get_target_time long_break_stash (minutes 60) = Inr (datetime_of 2000 1 1 9 30 0 0)"
  unfolding long_break_stash_def get_target_time_def
  apply (simp add: calendar_defs overlap_defs)
  apply (subst target_time_loop.simps, simp add: calendar_defs overlap_defs)
  apply (subst target_time_loop.simps, simp add: calendar_defs overlap_defs)
  apply (subst target_time_loop.simps, simp add: calendar_defs overlap_defs)
  apply (subst target_time_loop.simps, simp add: calendar_defs overlap_defs)
  done

lemma long_break_passes:
  "get_target_time_passes long_break_stash (minutes 60) = 4"
  unfolding long_break_stash_def get_target_time_passes_def
  apply (simp add: calendar_defs overlap_defs)
  apply (subst target_time_passes.simps, simp add: calendar_defs overlap_defs)
  apply (subst target_time_passes.simps, simp add: calendar_defs overlap_defs)
  apply (subst target_time_passes.simps, simp add: calendar_defs overlap_defs)
  apply (subst target_time_passes.simps, simp add: calendar_defs overlap_defs)
  done

lemma long_break_window:
  "breaks_in_window
     \<lparr>start = start (work long_break_stash), end' = datetime_of 2000 1 1 9 30 0 0\<rparr>
     (breaks long_break_stash) = 1"
  by (simp add: breaks_in_window_def long_break_stash_def calendar_defs overlap_defs)

subsection \<open>The projected time\<close>

lemma get_breaks_duration_nonneg: "0 \<le> get_breaks_duration w bs"
  unfolding get_breaks_duration_sum
  by (rule sum_list_nonneg) (auto simp add: calc_time_overlap_nonneg)

lemma breaks_length_nonneg: "0 \<le> breaks_length d bs"
  unfolding breaks_length_def
  by (rule sum_list_nonneg) (auto simp add: break_length_def Let_def)

lemma initial_presence_le:
  "get_presence \<lparr>start = s, end' = s + target\<rparr> bs \<le> target"
  using get_breaks_duration_nonneg[of "\<lparr>start = s, end' = s + target\<rparr>" bs]
  by (simp add: get_presence_def)

text \<open>
  C1 (as amended). Whenever \<^verbatim>\<open>get_target_time\<close> returns an instant \<open>t\<close>, the
  presence of the span from the start of work to \<open>t\<close> is exactly the target. It
  does return an instant for every positive target for which the start of work
  plus the target plus the length of all breaks is still within the years that
  \<^verbatim>\<open>datetime\<close> can hold; beyond them the addition raises
  \<^verbatim>\<open>OverflowError\<close>. For work from 07:00, breaks 09:00 to 09:15 and 10:05 to
  10:10 and a target of 180 minutes the result is 10:20 of the same day.
\<close>

theorem get_target_time_reaches_target:
  "(get_target_time stash target = Inr t
      \<longrightarrow> get_presence \<lparr>start = start (work stash), end' = t\<rparr> (breaks stash) = target)
   \<and> (0 < target \<and> valid_datetime (start (work stash))
        \<and> start (work stash) + target
             + breaks_length (date (start (work stash))) (breaks stash)
           < (MAXORDINAL + 1) * DAY
      \<longrightarrow> (\<exists>t. get_target_time stash target = Inr t))
   \<and> get_target_time test_target_covers_multiple_breaks (minutes 180)
       = Inr (datetime_of 2000 1 1 10 20 0 0)"
proof (intro conjI impI)
  let ?s = "start (work stash)"
  assume r: "get_target_time stash target = Inr t"
  then have v: "dt_add ?s target = Inr (?s + target)"
    and l: "target_time_loop (breaks stash) target \<lparr>start = ?s, end' = ?s + target\<rparr> = Inr t"
    by (auto simp add: get_target_time_def dt_add_def split: if_splits)
  from target_time_loop_presence[OF initial_presence_le l]
  show "get_presence \<lparr>start = ?s, end' = t\<rparr> (breaks stash) = target" by simp
next
  let ?s = "start (work stash)"
  assume a: "0 < target \<and> valid_datetime ?s
        \<and> ?s + target + breaks_length (date ?s) (breaks stash) < (MAXORDINAL + 1) * DAY"
  have "0 \<le> breaks_length (date ?s) (breaks stash)"
    by (rule breaks_length_nonneg)
  with a have v: "dt_add ?s target = Inr (?s + target)"
    by (simp add: dt_add_def valid_datetime_def)
  have "\<exists>t. target_time_loop (breaks stash) target \<lparr>start = ?s, end' = ?s + target\<rparr> = Inr t"
    using a by (intro target_time_loop_returns) (simp_all add: valid_datetime_def)
  then show "\<exists>t. get_target_time stash target = Inr t"
    by (simp add: get_target_time_def v)
next
  show "get_target_time test_target_covers_multiple_breaks (minutes 180)
       = Inr (datetime_of 2000 1 1 10 20 0 0)" by (rule get_target_time_test)
qed

theorem get_target_time_reaches_target_witness:
  "0 < minutes 180
   \<and> valid_datetime (start (work test_target_covers_multiple_breaks))
   \<and> start (work test_target_covers_multiple_breaks) + minutes 180
        + breaks_length (date (start (work test_target_covers_multiple_breaks)))
            (breaks test_target_covers_multiple_breaks)
      < (MAXORDINAL + 1) * DAY
   \<and> get_target_time test_target_covers_multiple_breaks (minutes 180)
       = Inr (datetime_of 2000 1 1 10 20 0 0)
   \<and> get_presence \<lparr>start = datetime_of 2000 1 1 7 0 0 0, end' = datetime_of 2000 1 1 10 20 0 0\<rparr>
         (breaks test_target_covers_multiple_breaks) = minutes 180"
  using get_target_time_reaches_target
    [of test_target_covers_multiple_breaks "minutes 180" "datetime_of 2000 1 1 10 20 0 0"]
  by (simp add: test_target_covers_multiple_breaks_def calendar_defs minutes_def
      valid_datetime_def breaks_length_def break_length_def set_dict_to_date_def date_def)

text \<open>
  C1 as stated fails at the end of the calendar: one hour before the end of the
  year 9999 a target of 180 minutes has no instant, and
  \<^verbatim>\<open>get_target_time\<close> raises \<^verbatim>\<open>OverflowError\<close>.
\<close>

theorem get_target_time_overflow_counterexample:
  "\<not> (\<exists>t. get_target_time last_day_stash (minutes 180) = Inr t
          \<and> get_presence \<lparr>start = start (work last_day_stash), end' = t\<rparr>
                (breaks last_day_stash) = minutes 180)"
  by (simp add: get_target_time_def last_day_stash_def calendar_defs overlap_defs)

subsection \<open>Passes of the projection loop\<close>

lemma calc_time_overlap_empty_work:
  "end' w \<le> start w \<Longrightarrow> calc_time_overlap w b = 0"
  by (auto simp add: calc_time_overlap_def Let_def)

lemma get_breaks_duration_empty_work:
  "end' w \<le> start w \<Longrightarrow> get_breaks_duration w bs = 0"
  unfolding get_breaks_duration_sum
  by (induction bs) (simp_all add: calc_time_overlap_empty_work)

lemma get_target_time_cases:
  "(\<exists>t. get_target_time stash target = Inr t) \<or> get_target_time stash target = Inl OverflowError"
proof (cases "get_target_time stash target")
  case (Inl err)
  then have "err = OverflowError"
    by (auto simp add: get_target_time_def split: sum.splits
        dest: dt_add_Inl target_time_loop_error)
  with Inl show ?thesis by simp
next
  case (Inr t)
  then show ?thesis by simp
qed

text \<open>
  C2 (as amended). \<^verbatim>\<open>get_target_time\<close> always ends: it returns an instant or
  raises \<^verbatim>\<open>OverflowError\<close>. When it returns \<open>t\<close>, the loop body has run at
  most once more than there are microseconds of break time in the span from the
  start of work to \<open>t\<close>. For a target that is not positive and a start plus
  target that \<^verbatim>\<open>datetime\<close> can hold, the first check ends the loop and the
  result is the start plus the target.
\<close>

theorem get_target_time_terminates:
  "((\<exists>t. get_target_time stash target = Inr t)
      \<or> get_target_time stash target = Inl OverflowError)
   \<and> (get_target_time stash target = Inr t
        \<longrightarrow> int (get_target_time_passes stash target)
              \<le> 1 + get_breaks_duration \<lparr>start = start (work stash), end' = t\<rparr> (breaks stash))
   \<and> (target \<le> 0 \<and> valid_datetime (start (work stash) + target)
        \<longrightarrow> get_target_time stash target = Inr (start (work stash) + target)
            \<and> get_target_time_passes stash target = 1)"
proof (intro conjI impI)
  show "(\<exists>t. get_target_time stash target = Inr t)
      \<or> get_target_time stash target = Inl OverflowError"
    by (rule get_target_time_cases)
next
  let ?s = "start (work stash)"
  let ?w = "\<lparr>start = ?s, end' = ?s + target\<rparr>"
  assume r: "get_target_time stash target = Inr t"
  then have v: "dt_add ?s target = Inr (?s + target)"
    and l: "target_time_loop (breaks stash) target ?w = Inr t"
    by (auto simp add: get_target_time_def dt_add_def split: if_splits)
  have p: "get_target_time_passes stash target = target_time_passes (breaks stash) target ?w"
    by (simp add: get_target_time_passes_def v)
  from target_time_passes_bound[OF initial_presence_le l]
  show "int (get_target_time_passes stash target)
      \<le> 1 + get_breaks_duration \<lparr>start = ?s, end' = t\<rparr> (breaks stash)"
    unfolding p by (simp add: get_presence_def)
next
  let ?s = "start (work stash)"
  let ?w = "\<lparr>start = ?s, end' = ?s + target\<rparr>"
  assume a: "target \<le> 0 \<and> valid_datetime (?s + target)"
  then have v: "dt_add ?s target = Inr (?s + target)" by (simp add: dt_add_def)
  have "get_breaks_duration ?w (breaks stash) = 0"
    using a by (intro get_breaks_duration_empty_work) simp
  then have stop: "\<not> 0 < target - get_presence ?w (breaks stash)"
    by (simp add: get_presence_def)
  show "get_target_time stash target = Inr (?s + target)"
    by (simp add: get_target_time_def v loop_stop[OF stop])
  show "get_target_time_passes stash target = 1"
    by (simp add: get_target_time_passes_def v passes_stop[OF stop])
qed

theorem get_target_time_terminates_witness:
  "get_target_time test_target_covers_multiple_breaks (minutes 180)
     = Inr (datetime_of 2000 1 1 10 20 0 0)
   \<and> int (get_target_time_passes test_target_covers_multiple_breaks (minutes 180))
       \<le> 1 + minutes 20
   \<and> minutes (- 60) \<le> 0
   \<and> valid_datetime (start (work test_target_covers_multiple_breaks) + minutes (- 60))
   \<and> get_target_time test_target_covers_multiple_breaks (minutes (- 60))
       = Inr (datetime_of 2000 1 1 6 0 0 0)
   \<and> get_target_time_passes test_target_covers_multiple_breaks (minutes (- 60)) = 1"
proof -
  have v: "minutes (- 60) \<le> 0
     \<and> valid_datetime (start (work test_target_covers_multiple_breaks) + minutes (- 60))"
    by (simp add: test_target_covers_multiple_breaks_def calendar_defs minutes_def
        valid_datetime_def)
  have s: "start (work test_target_covers_multiple_breaks) + minutes (- 60)
      = datetime_of 2000 1 1 6 0 0 0"
    by (simp add: test_target_covers_multiple_breaks_def calendar_defs minutes_def)
  have d: "get_breaks_duration
      \<lparr>start = start (work test_target_covers_multiple_breaks),
       end' = datetime_of 2000 1 1 10 20 0 0\<rparr>
      (breaks test_target_covers_multiple_breaks) = minutes 20"
    by (simp add: test_target_covers_multiple_breaks_def calendar_defs overlap_defs)
  show ?thesis
    using get_target_time_terminates
      [of test_target_covers_multiple_breaks "minutes 180" "datetime_of 2000 1 1 10 20 0 0"]
      get_target_time_terminates [of test_target_covers_multiple_breaks "minutes (- 60)"]
      get_target_time_test v s d
    by simp
qed

text \<open>
  C2 as stated bounds the passes by the number of breaks in the final window
  plus one. With work from 07:00, one break from 07:30 to 09:00 and a target of
  60 minutes the loop ends at 09:30 after four passes, with one break in the
  window.
\<close>

theorem get_target_time_passes_counterexample:
  "get_target_time long_break_stash (minutes 60) = Inr (datetime_of 2000 1 1 9 30 0 0)
   \<and> \<not> (get_target_time_passes long_break_stash (minutes 60)
          \<le> breaks_in_window
               \<lparr>start = start (work long_break_stash), end' = datetime_of 2000 1 1 9 30 0 0\<rparr>
               (breaks long_break_stash) + 1)"
  by (simp add: long_break_result long_break_passes long_break_window)

subsection \<open>Presence and breaks that overlap one another\<close>

lemma card_overlap_points: "int (card (overlap_points w b)) = calc_time_overlap w b"
  by (auto simp add: overlap_points_def calc_time_overlap_def Let_def)

lemma finite_overlap_points: "finite (overlap_points w b)"
  by (simp add: overlap_points_def Let_def)

lemma overlap_points_in_work: "overlap_points w b \<subseteq> {start w ..< end' w}"
  by (auto simp add: overlap_points_def Let_def)

lemma overlap_points_disjoint:
  assumes "\<not> shares_time (set_dict_to_date (date (start w)) b) (set_dict_to_date (date (start w)) c)"
  shows "overlap_points w b \<inter> overlap_points w c = {}"
  using assms by (auto simp add: overlap_points_def shares_time_def Let_def)

lemma sum_overlaps_card:
  "breaks_disjoint (date (start w)) bs \<Longrightarrow>
     get_breaks_duration w bs = int (card (\<Union>b \<in> set bs. overlap_points w b))"
proof (induction bs)
  case Nil
  then show ?case by (simp add: get_breaks_duration_sum)
next
  case (Cons b bs)
  let ?U = "\<Union>c \<in> set bs. overlap_points w c"
  from Cons.prems have d: "breaks_disjoint (date (start w)) bs"
    and nb: "\<forall>c \<in> set bs. \<not> shares_time (set_dict_to_date (date (start w)) b)
                (set_dict_to_date (date (start w)) c)"
    by (simp_all add: breaks_disjoint_def)
  have "overlap_points w b \<inter> ?U = {}"
    using nb overlap_points_disjoint[of w b] by blast
  moreover have "finite ?U" by (simp add: finite_overlap_points)
  ultimately have "card (overlap_points w b \<union> ?U) = card (overlap_points w b) + card ?U"
    by (simp add: card_Un_disjoint finite_overlap_points)
  with Cons.IH[OF d] show ?case
    by (simp add: get_breaks_duration_sum card_overlap_points)
qed

lemma disjoint_breaks_fit:
  assumes "breaks_disjoint (date (start w)) bs"
  shows "get_breaks_duration w bs \<le> max 0 (end' w - start w)"
proof -
  have "(\<Union>b \<in> set bs. overlap_points w b) \<subseteq> {start w ..< end' w}"
    using overlap_points_in_work by blast
  then have "card (\<Union>b \<in> set bs. overlap_points w b) \<le> card {start w ..< end' w}"
    by (intro card_mono) simp_all
  then show ?thesis unfolding sum_overlaps_card[OF assms] by simp
qed

text \<open>
  C3 (as amended). Presence is the length of the work span minus the summed
  overlaps, with no clamping. It is negative only if the work span ends before
  it starts or if breaks of the list overlap one another, their shared time
  being subtracted once for each of them.
\<close>

theorem get_presence_formula:
  "get_presence w bs = (end' w - start w) - get_breaks_duration w bs
   \<and> (get_presence w bs < 0
        \<longrightarrow> end' w < start w \<or> \<not> breaks_disjoint (date (start w)) bs)"
  using disjoint_breaks_fit[of w bs] by (auto simp add: get_presence_def)

theorem get_presence_formula_witness:
  "get_presence double_break_work double_break < 0
   \<and> \<not> breaks_disjoint (date (start double_break_work)) double_break"
  using get_presence_formula[of double_break_work double_break]
  by (simp add: double_break_work_def double_break_def calendar_defs overlap_defs)

text \<open>
  C3 as stated fails when a break is listed twice: a quarter of an hour of work
  inside that break has a presence of minus fifteen minutes, although the work
  span ends after it starts.
\<close>

theorem get_presence_negative_counterexample:
  "get_presence double_break_work double_break = - minutes 15
   \<and> \<not> (get_presence double_break_work double_break < 0
          \<longrightarrow> end' double_break_work < start double_break_work)"
  by (simp add: double_break_work_def double_break_def calendar_defs overlap_defs)

subsection \<open>Breaks given as times of day\<close>

text \<open>
  C5. A break whose fields are times of day is put on the calendar date of
  \<open>first.start\<close>, field by field, before the overlap formula is applied. The
  date of \<open>first.end\<close> plays no part: for work from 23:00 to 01:00 of the next
  day a break from 00:30 to 00:45 has no overlap, where on the date of
  \<open>first.end\<close> it would have fifteen minutes.
\<close>

theorem calc_time_overlap_normalizes_on_start_date:
  "set_dict_to_date d \<lparr>start = TM s, end' = TM e\<rparr> = \<lparr>start = combine d s, end' = combine d e\<rparr>
   \<and> set_dict_to_date d \<lparr>start = DT s', end' = TM e\<rparr> = \<lparr>start = s', end' = combine d e\<rparr>
   \<and> set_dict_to_date d \<lparr>start = TM s, end' = DT e'\<rparr> = \<lparr>start = combine d s, end' = e'\<rparr>
   \<and> calc_time_overlap first second
       = (let n = set_dict_to_date (date (start first)) second
          in max 0 (min (end' first) (end' n) - max (start first) (start n)))
   \<and> calc_time_overlap first \<lparr>start = TM s, end' = TM e\<rparr>
       = calc_time_overlap first
           \<lparr>start = DT (combine (date (start first)) s),
            end' = DT (combine (date (start first)) e)\<rparr>
   \<and> calc_time_overlap overnight_work after_midnight_break = 0
   \<and> calc_time_overlap overnight_work
         \<lparr>start = DT (combine (date (end' overnight_work)) (time_of 0 30 0 0)),
          end' = DT (combine (date (end' overnight_work)) (time_of 0 45 0 0))\<rparr> = minutes 15"
proof (intro conjI)
  show "calc_time_overlap overnight_work after_midnight_break = 0"
    by (simp add: overnight_work_def after_midnight_break_def calendar_defs overlap_defs)
  show "calc_time_overlap overnight_work
         \<lparr>start = DT (combine (date (end' overnight_work)) (time_of 0 30 0 0)),
          end' = DT (combine (date (end' overnight_work)) (time_of 0 45 0 0))\<rparr> = minutes 15"
    by (simp add: overnight_work_def calendar_defs overlap_defs)
qed (auto simp add: calc_time_overlap_def set_dict_to_date_def Let_def)

subsection \<open>The calendar: ordinals and dates\<close>






subsection \<open>Writing and reading back a timestamp\<close>
















subsection \<open>The deserialization hook\<close>





subsection \<open>Serializing and deserializing\<close>






subsection \<open>What the parsers return\<close>










lemma truncate_div_mod:
  fixes t a b :: int
  assumes "0 < a" "a dvd b" "0 < b"
  shows "(t - t mod a) div b = t div b" "(t - t mod a) mod b = t mod b - t mod a"
proof -
  have r: "t mod b mod a = t mod a" using assms(2) by (rule mod_mod_cancel)
  have "t mod b mod a \<le> t mod b"
    using assms(1,3) by (simp add: zmod_le_nonneg_dividend)
  with r have lo: "0 \<le> t mod b - t mod a" by simp
  have hi: "t mod b - t mod a < b"
    using assms(1,3) pos_mod_sign[of a t] pos_mod_bound[of b t] by linarith
  have e: "t - t mod a = b * (t div b) + (t mod b - t mod a)" by simp
  show "(t - t mod a) div b = t div b"
    using e lo hi by (rule int_div_pos_eq)
  show "(t - t mod a) mod b = t mod b - t mod a"
    using e lo hi by (rule int_mod_pos_eq)
qed





lemma date_truncate: "date (t - t mod MINUTE) = date t"
  unfolding date_def using truncate_div_mod(1)[of MINUTE DAY t] by simp

lemma valid_datetime_date:
  "valid_datetime t \<longleftrightarrow> 1 \<le> date t \<and> date t \<le> MAXORDINAL"
proof -
  have "DAY * (t div DAY) + t mod DAY = t" "0 \<le> t mod DAY" "t mod DAY < DAY" by simp_all
  moreover have "valid_datetime t \<longleftrightarrow> DAY \<le> t \<and> t < 315537984000000000"
    by (simp add: valid_datetime_def)
  ultimately show ?thesis unfolding date_def by linarith
qed

lemma valid_datetime_truncate: "valid_datetime t \<Longrightarrow> valid_datetime (t - t mod MINUTE)"
  by (simp add: valid_datetime_date date_truncate)

lemma valid_time_truncate: "valid_time t \<Longrightarrow> valid_time (t - t mod MINUTE)"
  unfolding valid_time_def
  using pos_mod_sign[of MINUTE t] zmod_le_nonneg_dividend[of t MINUTE]
  by auto

subsection \<open>Writing the stash and reading it back\<close>





lemma truncate_value_loaded: "loaded_value v \<Longrightarrow> loaded_value (truncate_value v)"
  by (cases v)
    (simp_all add: loaded_value_def truncate_value_def valid_datetime_truncate
      valid_time_truncate)

lemma json_default_scalar: "loaded_value v \<Longrightarrow> json_scalar (json_default v)"
  by (cases v)
    (simp_all del: strftime.simps
      add: json_default_def datetime_to_string_def json_scalar_def loaded_value_def)








subsection \<open>The update cycle\<close>

lemma write_log_files:
  "write_log w stash = Inr w' \<Longrightarrow> stash_file w' = stash_file w"
  by (auto simp add: write_log_def Let_def split: sum.splits)






















end
